theory Spec2Isabelle
  imports Complex_Main "HOL-Library.AList"
begin

section \<open>Players data store (\<open>playersData/pdata.py\<close>)\<close>

text \<open>
  The module keeps four JSON documents (profiles, roles, custom data, whitelist) and a
  process-wide cache (\<open>CacheData\<close>). Every function of the module becomes a function
  on an explicit process state; a Python exception becomes a value of \<open>error\<close>,
  returned beside the state the process is left in when it is raised.
\<close>

subsection \<open>Data model\<close>

datatype error = KeyError | ValueError | TypeError | AttributeError

text \<open>
  The \<open>display_string\<close> entry of a profile is written as a plain string by
  \<open>add_profile\<close> and \<open>update_display_string\<close>, while \<open>update_profile\<close> calls
  \<open>append\<close> on it; both JSON shapes are therefore kept.
\<close>

datatype dsval = DStr string | DList "string list"

record profile =
  display_string :: dsval
  profiles :: "string list"
  name :: string
  isBan :: bool
  isMuted :: bool
  accountAge :: int
  registerOn :: real
  canStartKickVote :: bool
  spamCount :: int
  lastSpam :: real
  totaltimeplayer :: int
  lastseen :: int

text \<open>The entry of \<open>serverdata.clients\<close>: the profile plus the live-session keys.\<close>

record client = profile +
  warnCount :: int
  lastWarned :: real
  verified :: bool
  rejoincount :: int
  lastJoin :: real

record role =
  tag :: string
  tagcolor :: "int list"
  commands :: "string list"
  ids :: "string list"

text \<open>
  A Python dict keeps insertion order, and \<open>get_player_roles\<close> iterates over it, so
  the role table is an association list: \<open>map_of\<close> is the lookup, \<open>AList.update\<close>
  the item assignment (it overwrites in place, or appends a new key at the end), and
  \<open>map fst\<close> the iteration over the keys.
\<close>

type_synonym roles = "(string \<times> role) list"

text \<open>
  The custom document has the two keys \<open>customeffects\<close> and \<open>customtag\<close>; a key may
  be missing, and the empty dict \<open>{}\<close> (which \<open>get_custom\<close> tests for) is the
  document with neither.
\<close>

record custom =
  customeffects :: "(string \<rightharpoonup> string) option"
  customtag :: "(string \<rightharpoonup> string) option"

definition empty_custom :: custom where
  "empty_custom = \<lparr>customeffects = None, customtag = None\<rparr>"

definition is_empty_custom :: "custom \<Rightarrow> bool" where
  "is_empty_custom c \<longleftrightarrow> customeffects c = None \<and> customtag c = None"

text \<open>
  The process state. The four \<open>*_file\<close> fields are the documents on disk;
  \<open>profiles_file\<close> is optional because \<open>update_profile\<close> guards against a load that
  returns \<open>None\<close>. \<open>CacheData.roles\<close> is a reference to a dict object that the
  functions mutate in place and also hold in local variables, so role tables live in an
  object store \<open>heap\<close> and \<open>cache_roles\<close> is a reference into it; \<open>next_ref\<close> is
  the next unused reference. \<open>CacheData.custom\<close> is only ever reassigned right after it
  is mutated, so it is kept by value. \<open>clock\<close> lists the values successive calls of
  \<open>time.time()\<close> return and \<open>ticks\<close> counts the calls made.
\<close>

record state =
  profiles_file :: "(string \<rightharpoonup> profile) option"
  roles_file :: roles
  custom_file :: custom
  whitelist_file :: "string list"
  heap :: "nat \<Rightarrow> roles"
  next_ref :: nat
  cache_roles :: nat
  cache_custom :: custom
  cache_whitelist :: "string list"
  clients :: "string \<rightharpoonup> client"
  clock :: "nat \<Rightarrow> real"
  ticks :: nat

definition time_time :: "state \<Rightarrow> real \<times> state" where
  "time_time s = (clock s (ticks s), s\<lparr>ticks := Suc (ticks s)\<rparr>)"

subsection \<open>The document store\<close>

text \<open>
  Modelled from the spec: \<open>tools.file_handle.OpenJson\<close> is not part of the sources.
  The spec gives it \<open>load() -> Document\<close>, \<open>dump(Document)\<close> and \<open>format(Document)\<close>,
  each atomic, \<open>format\<close> being equivalent to \<open>dump\<close>: a load returns the stored
  document as a fresh object and a dump replaces the stored document.
\<close>

definition load_profiles :: "state \<Rightarrow> (string \<rightharpoonup> profile) option" where
  "load_profiles s = profiles_file s"

definition dump_profiles :: "(string \<rightharpoonup> profile) \<Rightarrow> state \<Rightarrow> state" where
  "dump_profiles d s = s\<lparr>profiles_file := Some d\<rparr>"

definition format_roles :: "roles \<Rightarrow> state \<Rightarrow> state" where
  "format_roles d s = s\<lparr>roles_file := d\<rparr>"

definition dump_custom :: "custom \<Rightarrow> state \<Rightarrow> state" where
  "dump_custom d s = s\<lparr>custom_file := d\<rparr>"

text \<open>
  Modelled from the spec: \<open>load()\<close> on the role document (\<open>OpenJson\<close> is not
  part of the sources). The loaded table is a new dict object, so it gets the next free
  reference.
\<close>

definition load_roles :: "state \<Rightarrow> nat \<times> state" where
  "load_roles s =
     (next_ref s,
      s\<lparr>heap := (heap s)(next_ref s := roles_file s), next_ref := Suc (next_ref s)\<rparr>)"

subsection \<open>RoleStore\<close>

definition commit_roles :: "roles \<Rightarrow> state \<Rightarrow> state" where
  "commit_roles data s = (if data = [] then s else format_roles data s)"

definition get_roles :: "state \<Rightarrow> nat \<times> state" where
  "get_roles s =
     (if heap s (cache_roles s) = [] then
        (let (r, s1) = load_roles s in (r, s1\<lparr>cache_roles := r\<rparr>))
      else (cache_roles s, s))"

text \<open>In-place mutation of the dict object behind a reference.\<close>

definition heap_upd :: "nat \<Rightarrow> (roles \<Rightarrow> roles) \<Rightarrow> state \<Rightarrow> state" where
  "heap_upd r f s = s\<lparr>heap := (heap s)(r := f (heap s r))\<rparr>"

definition new_role :: "string \<Rightarrow> role" where
  "new_role rl = \<lparr>tag = rl, tagcolor = [1, 1, 1], commands = [], ids = []\<rparr>"

definition create_role :: "string \<Rightarrow> state \<Rightarrow> state" where
  "create_role rl s =
     (let (r, s1) = get_roles s in
      if rl \<in> set (map fst (heap s1 r)) then s1
      else
        (let s2 = heap_upd r (AList.update rl (new_role rl)) s1;
             s3 = s2\<lparr>cache_roles := r\<rparr>
         in commit_roles (heap s3 r) s3))"

text \<open>\<open>add_player_role\<close>; the \<open>print\<close> of the unknown-role branch has no effect on the state.\<close>

definition add_player_role :: "string \<Rightarrow> string \<Rightarrow> state \<Rightarrow> state" where
  "add_player_role rl account_id s =
     (let (r, s1) = get_roles s in
      case map_of (heap s1 r) rl of
        Some ro \<Rightarrow>
          if account_id \<notin> set (ids ro) then
            (let s2 = heap_upd r (AList.update rl (ro\<lparr>ids := ids ro @ [account_id]\<rparr>)) s1;
                 s3 = s2\<lparr>cache_roles := r\<rparr>
             in commit_roles (heap s3 r) s3)
          else s1
      | None \<Rightarrow> s1)"

text \<open>
  \<open>remove_player_role\<close>: \<open>list.remove\<close> deletes the first occurrence and raises
  \<open>ValueError\<close> when there is none.
\<close>

definition remove_player_role :: "string \<Rightarrow> string \<Rightarrow> state \<Rightarrow> (error + string) \<times> state" where
  "remove_player_role rl account_id s =
     (let (r, s1) = get_roles s in
      case map_of (heap s1 r) rl of
        Some ro \<Rightarrow>
          if account_id \<in> set (ids ro) then
            (let s2 = heap_upd r (AList.update rl (ro\<lparr>ids := remove1 account_id (ids ro)\<rparr>)) s1;
                 s3 = s2\<lparr>cache_roles := r\<rparr>
             in (Inr (''removed from '' @ rl), commit_roles (heap s3 r) s3))
          else (Inl ValueError, s1)
      | None \<Rightarrow> (Inr ''role not exists'', s1))"

definition add_command_role :: "string \<Rightarrow> string \<Rightarrow> state \<Rightarrow> string \<times> state" where
  "add_command_role rl command s =
     (let (r, s1) = get_roles s in
      case map_of (heap s1 r) rl of
        Some ro \<Rightarrow>
          if command \<notin> set (commands ro) then
            (let s2 = heap_upd r (AList.update rl (ro\<lparr>commands := commands ro @ [command]\<rparr>)) s1;
                 s3 = s2\<lparr>cache_roles := r\<rparr>
             in (''command added to '' @ rl, commit_roles (heap s3 r) s3))
          else (''command not exists'', s1)
      | None \<Rightarrow> (''command not exists'', s1))"

text \<open>
  The loop of \<open>get_player_roles\<close> over the keys of the table, with the list
  \<open>have_roles\<close> as accumulator; \<open>roles[role]\<close> raises \<open>KeyError\<close> for a missing key.
\<close>

fun have_roles_loop :: "roles \<Rightarrow> string \<Rightarrow> string list \<Rightarrow> string list \<Rightarrow> error + string list" where
  "have_roles_loop t account_id [] have_roles = Inr have_roles"
| "have_roles_loop t account_id (rl # rest) have_roles =
     (case map_of t rl of
        None \<Rightarrow> Inl KeyError
      | Some ro \<Rightarrow>
          if account_id \<in> set (ids ro)
          then have_roles_loop t account_id rest (have_roles @ [rl])
          else have_roles_loop t account_id rest have_roles)"

definition get_player_roles :: "string \<Rightarrow> state \<Rightarrow> (error + string list) \<times> state" where
  "get_player_roles account_id s =
     (let (r, s1) = get_roles s in
      (have_roles_loop (heap s1 r) account_id (map fst (heap s1 r)) [], s1))"

text \<open>
  \<open>update_toppers\<close>: the local \<open>roles\<close> keeps the reference obtained before
  \<open>create_role\<close> runs, the assignment goes through \<open>CacheData.roles\<close>, and the commit
  is given the local \<open>roles\<close>.
\<close>

definition update_toppers :: "string list \<Rightarrow> state \<Rightarrow> (error + unit) \<times> state" where
  "update_toppers topper_list s =
     (let (r, s1) = get_roles s;
          s2 = (if ''top5'' \<notin> set (map fst (heap s1 r)) then create_role ''top5'' s1 else s1)
      in case map_of (heap s2 (cache_roles s2)) ''top5'' of
           None \<Rightarrow> (Inl KeyError, s2)
         | Some ro \<Rightarrow>
             (let s3 = heap_upd (cache_roles s2) (AList.update ''top5'' (ro\<lparr>ids := topper_list\<rparr>)) s2
              in (Inr (), commit_roles (heap s3 r) s3)))"

text \<open>
  The role table a caller sees: what \<open>get_roles\<close> would hand out, that is the cached
  table, or the stored document while the cache is still the empty dict.
\<close>

definition role_table :: "state \<Rightarrow> roles" where
  "role_table s = (if heap s (cache_roles s) = [] then roles_file s else heap s (cache_roles s))"

subsection \<open>ProfileStore\<close>

type_synonym pdoc = "string \<rightharpoonup> profile"

text \<open>
  \<open>get_info\<close>: the membership test on a document that loaded as \<open>None\<close> raises
  \<open>TypeError\<close>.
\<close>

definition get_info :: "string \<Rightarrow> state \<Rightarrow> (error + profile option) \<times> state" where
  "get_info account_id s =
     (case load_profiles s of
        None \<Rightarrow> (Inl TypeError, s)
      | Some ps \<Rightarrow>
          (case ps account_id of
             Some p \<Rightarrow> (Inr (Some p), s)
           | None \<Rightarrow> (Inr None, s)))"

definition get_profiles :: "state \<Rightarrow> pdoc option \<times> state" where
  "get_profiles s = (load_profiles s, s)"

definition commit_profiles :: "pdoc \<Rightarrow> state \<Rightarrow> state" where
  "commit_profiles ps s = dump_profiles ps s"

text \<open>
  \<open>add_profile\<close>: the dict literal (with its two calls of \<open>time.time()\<close>) is
  evaluated before the item assignment, which raises \<open>TypeError\<close> on a document that
  loaded as \<open>None\<close>. After the commit the same entry, extended by the session keys, is
  put into \<open>serverdata.clients\<close>.
\<close>

definition add_profile ::
  "string \<Rightarrow> string \<Rightarrow> string \<Rightarrow> int \<Rightarrow> state \<Rightarrow> (error + unit) \<times> state" where
  "add_profile account_id display_str current_name account_age s =
     (let loaded = load_profiles s;
          (t1, s1) = time_time s;
          (t2, s2) = time_time s1;
          p = \<lparr>display_string = DStr display_str, profiles = [], name = current_name,
               isBan = False, isMuted = False, accountAge = account_age, registerOn = t1,
               canStartKickVote = True, spamCount = 0, lastSpam = t2,
               totaltimeplayer = 0, lastseen = 0\<rparr>
      in case loaded of
           None \<Rightarrow> (Inl TypeError, s2)
         | Some ps \<Rightarrow>
             (let s3 = commit_profiles (ps(account_id \<mapsto> p)) s2;
                  (t3, s4) = time_time s3;
                  (t4, s5) = time_time s4;
                  c = profile.extend p
                        \<lparr>warnCount = 0, lastWarned = t3, verified = False,
                         rejoincount = 1, lastJoin = t4\<rparr>
              in (Inr (), s5\<lparr>clients := (clients s5)(account_id \<mapsto> c)\<rparr>)))"

definition update_display_string :: "string \<Rightarrow> string \<Rightarrow> state \<Rightarrow> (error + unit) \<times> state" where
  "update_display_string account_id display_str s =
     (let (loaded, s1) = get_profiles s in
      case loaded of
        None \<Rightarrow> (Inl TypeError, s1)
      | Some ps \<Rightarrow>
          (case ps account_id of
             Some p \<Rightarrow>
               (Inr (), commit_profiles (ps(account_id \<mapsto> p\<lparr>display_string := DStr display_str\<rparr>)) s1)
           | None \<Rightarrow> (Inr (), s1)))"

text \<open>Python's \<open>x in y\<close> on two strings: \<open>x\<close> occurs in \<open>y\<close> as a substring.\<close>

fun is_substr :: "string \<Rightarrow> string \<Rightarrow> bool" where
  "is_substr xs [] = (xs = [])"
| "is_substr xs (y # ys) = (take (length xs) (y # ys) = xs \<or> is_substr xs ys)"

text \<open>
  The three parts of \<open>update_profile\<close>. Only the first one tests that the account is in
  the document. On a stored plain string the \<open>not in\<close> test is the substring test and
  \<open>append\<close> raises \<open>AttributeError\<close>.
\<close>

definition merge_display_string :: "string \<Rightarrow> string option \<Rightarrow> pdoc \<Rightarrow> error + pdoc" where
  "merge_display_string account_id display_str ps =
     (case (ps account_id, display_str) of
        (Some p, Some d) \<Rightarrow>
          (case display_string p of
             DList l \<Rightarrow>
               if d \<notin> set l
               then Inr (ps(account_id \<mapsto> p\<lparr>display_string := DList (l @ [d])\<rparr>))
               else Inr ps
           | DStr t \<Rightarrow> if \<not> is_substr d t then Inl AttributeError else Inr ps)
      | _ \<Rightarrow> Inr ps)"

fun merge_allprofiles :: "string \<Rightarrow> string list \<Rightarrow> pdoc \<Rightarrow> error + pdoc" where
  "merge_allprofiles account_id [] ps = Inr ps"
| "merge_allprofiles account_id (pr # rest) ps =
     (case ps account_id of
        None \<Rightarrow> Inl KeyError
      | Some p \<Rightarrow>
          if pr \<notin> set (profiles p)
          then merge_allprofiles account_id rest
                 (ps(account_id \<mapsto> p\<lparr>profiles := profiles p @ [pr]\<rparr>))
          else merge_allprofiles account_id rest ps)"

definition set_name :: "string \<Rightarrow> string \<Rightarrow> pdoc \<Rightarrow> error + pdoc" where
  "set_name account_id nm ps =
     (case ps account_id of
        None \<Rightarrow> Inl KeyError
      | Some p \<Rightarrow> Inr (ps(account_id \<mapsto> p\<lparr>name := nm\<rparr>)))"

definition update_profile ::
  "string \<Rightarrow> string option \<Rightarrow> string list option \<Rightarrow> string option \<Rightarrow> state
     \<Rightarrow> (error + unit) \<times> state" where
  "update_profile account_id display_str allprofiles nm s =
     (case load_profiles s of
        None \<Rightarrow> (Inr (), s)
      | Some ps \<Rightarrow>
          (case merge_display_string account_id display_str ps of
             Inl e \<Rightarrow> (Inl e, s)
           | Inr ps1 \<Rightarrow>
               (case (case allprofiles of
                        None \<Rightarrow> Inr ps1
                      | Some al \<Rightarrow> merge_allprofiles account_id al ps1) of
                  Inl e \<Rightarrow> (Inl e, s)
                | Inr ps2 \<Rightarrow>
                    (case (case nm of None \<Rightarrow> Inr ps2 | Some n \<Rightarrow> set_name account_id n ps2) of
                       Inl e \<Rightarrow> (Inl e, s)
                     | Inr ps3 \<Rightarrow> (Inr (), commit_profiles ps3 s)))))"

subsection \<open>CustomStore\<close>

text \<open>
  Modelled from the spec: \<open>load()\<close> on the custom document (\<open>OpenJson\<close> is not
  part of the sources) returns the stored document.
\<close>

definition load_custom :: "state \<Rightarrow> custom" where
  "load_custom s = custom_file s"

definition get_custom :: "state \<Rightarrow> custom \<times> state" where
  "get_custom s =
     (if is_empty_custom (cache_custom s) then (load_custom s, s)
      else (cache_custom s, s))"

definition commit_c :: "state \<Rightarrow> state" where
  "commit_c s = dump_custom (cache_custom s) s"

text \<open>
  The four writers. \<open>custom["customeffects"]\<close> raises \<open>KeyError\<close> when the document
  lacks the key, and \<open>pop\<close> raises it when the account has no entry; both happen before
  \<open>CacheData.custom\<close> is assigned.
\<close>

definition set_effect :: "string \<Rightarrow> string \<Rightarrow> state \<Rightarrow> (error + unit) \<times> state" where
  "set_effect effect accout_id s =
     (let (cu, s1) = get_custom s in
      case customeffects cu of
        None \<Rightarrow> (Inl KeyError, s1)
      | Some m \<Rightarrow>
          (let cu' = cu\<lparr>customeffects := Some (m(accout_id \<mapsto> effect))\<rparr>;
               s2 = s1\<lparr>cache_custom := cu'\<rparr>
           in (Inr (), commit_c s2)))"

definition set_tag :: "string \<Rightarrow> string \<Rightarrow> state \<Rightarrow> (error + unit) \<times> state" where
  "set_tag tg account_id s =
     (let (cu, s1) = get_custom s in
      case customtag cu of
        None \<Rightarrow> (Inl KeyError, s1)
      | Some m \<Rightarrow>
          (let cu' = cu\<lparr>customtag := Some (m(account_id \<mapsto> tg))\<rparr>;
               s2 = s1\<lparr>cache_custom := cu'\<rparr>
           in (Inr (), commit_c s2)))"

definition remove_effect :: "string \<Rightarrow> state \<Rightarrow> (error + unit) \<times> state" where
  "remove_effect account_id s =
     (let (cu, s1) = get_custom s in
      case customeffects cu of
        None \<Rightarrow> (Inl KeyError, s1)
      | Some m \<Rightarrow>
          (case m account_id of
             None \<Rightarrow> (Inl KeyError, s1)
           | Some _ \<Rightarrow>
               (let cu' = cu\<lparr>customeffects := Some (m(account_id := None))\<rparr>;
                    s2 = s1\<lparr>cache_custom := cu'\<rparr>
                in (Inr (), commit_c s2))))"

definition remove_tag :: "string \<Rightarrow> state \<Rightarrow> (error + unit) \<times> state" where
  "remove_tag account_id s =
     (let (cu, s1) = get_custom s in
      case customtag cu of
        None \<Rightarrow> (Inl KeyError, s1)
      | Some m \<Rightarrow>
          (case m account_id of
             None \<Rightarrow> (Inl KeyError, s1)
           | Some _ \<Rightarrow>
               (let cu' = cu\<lparr>customtag := Some (m(account_id := None))\<rparr>;
                    s2 = s1\<lparr>cache_custom := cu'\<rparr>
                in (Inr (), commit_c s2))))"

subsection \<open>WhitelistLoader\<close>

text \<open>
  Modelled from the spec: \<open>load()\<close> on the whitelist document (\<open>OpenJson\<close> is
  not part of the sources) returns the stored sequence of account identifiers.
\<close>

definition load_whitelist_doc :: "state \<Rightarrow> string list" where
  "load_whitelist_doc s = whitelist_file s"

definition load_white_list :: "state \<Rightarrow> state" where
  "load_white_list s =
     fold (\<lambda>account_id s'. s'\<lparr>cache_whitelist := cache_whitelist s' @ [account_id]\<rparr>)
       (load_whitelist_doc s) s"

subsection \<open>Vocabulary of the properties\<close>

text \<open>Membership of an account in a role of a table, as \<open>account_id in roles[role]["ids"]\<close>.\<close>

definition is_member :: "roles \<Rightarrow> string \<Rightarrow> string \<Rightarrow> bool" where
  "is_member t account_id rl =
     (case map_of t rl of Some ro \<Rightarrow> account_id \<in> set (ids ro) | None \<Rightarrow> False)"

text \<open>No member list of the table holds an account twice.\<close>

definition dupfree :: "roles \<Rightarrow> bool" where
  "dupfree t \<longleftrightarrow> (\<forall>ro \<in> snd ` set t. distinct (ids ro))"

text \<open>
  An operation changed no data: the role table callers see, the four documents, the
  other caches and the client registry are the same, and with a populated role cache the
  whole process state is. (With an unpopulated one, \<open>get_roles\<close> has bound the loaded
  document to the cache, which leaves the table callers see as it was.)
\<close>

definition same_data :: "state \<Rightarrow> state \<Rightarrow> bool" where
  "same_data s s' \<longleftrightarrow>
     role_table s' = role_table s \<and> roles_file s' = roles_file s \<and>
     profiles_file s' = profiles_file s \<and> custom_file s' = custom_file s \<and>
     whitelist_file s' = whitelist_file s \<and> cache_custom s' = cache_custom s \<and>
     cache_whitelist s' = cache_whitelist s \<and> clients s' = clients s \<and>
     (heap s (cache_roles s) \<noteq> [] \<longrightarrow> s' = s)"

text \<open>A sequence of \<open>add_player_role\<close> calls, given as (role, account) pairs.\<close>

definition add_player_roles :: "(string \<times> string) list \<Rightarrow> state \<Rightarrow> state" where
  "add_player_roles calls s = fold (\<lambda>(rl, account_id). add_player_role rl account_id) calls s"

text \<open>The role table that holds only the role \<open>top5\<close>, with its defaults and the given members.\<close>

definition top5_only :: "string list \<Rightarrow> roles" where
  "top5_only l = [(''top5'', \<lparr>tag = ''top5'', tagcolor = [1, 1, 1], commands = [], ids = l\<rparr>)]"

text \<open>The operations of the CustomStore, and the state each leaves behind.\<close>

datatype custom_op =
  GetCustom | SetEffect string string | SetTag string string
  | RemoveEffect string | RemoveTag string

fun run_custom_op :: "custom_op \<Rightarrow> state \<Rightarrow> state" where
  "run_custom_op GetCustom s = snd (get_custom s)"
| "run_custom_op (SetEffect effect account_id) s = snd (set_effect effect account_id s)"
| "run_custom_op (SetTag tg account_id) s = snd (set_tag tg account_id s)"
| "run_custom_op (RemoveEffect account_id) s = snd (remove_effect account_id s)"
| "run_custom_op (RemoveTag account_id) s = snd (remove_tag account_id s)"

fun is_write :: "custom_op \<Rightarrow> bool" where
  "is_write GetCustom = False"
| "is_write _ = True"

fun is_set :: "custom_op \<Rightarrow> bool" where
  "is_set (SetEffect _ _) = True"
| "is_set (SetTag _ _) = True"
| "is_set _ = False"

text \<open>A sequence of CustomStore operations, run in order.\<close>

definition run_custom_ops :: "custom_op list \<Rightarrow> state \<Rightarrow> state" where
  "run_custom_ops ops s = fold run_custom_op ops s"

text \<open>
  The operations that write the effect entry, respectively the tag entry, of an account:
  setting it and removing it.
\<close>

fun touches_effect :: "string \<Rightarrow> custom_op \<Rightarrow> bool" where
  "touches_effect a (SetEffect effect account_id) = (account_id = a)"
| "touches_effect a (RemoveEffect account_id) = (account_id = a)"
| "touches_effect a _ = False"

fun touches_tag :: "string \<Rightarrow> custom_op \<Rightarrow> bool" where
  "touches_tag a (SetTag tg account_id) = (account_id = a)"
| "touches_tag a (RemoveTag account_id) = (account_id = a)"
| "touches_tag a _ = False"

text \<open>
  What a custom document holds for an account: \<open>custom["customeffects"].get(a)\<close> and
  \<open>custom["customtag"].get(a)\<close>, nothing where the key of the document is missing.
\<close>

definition effect_of :: "string \<Rightarrow> custom \<Rightarrow> string option" where
  "effect_of a c = (case customeffects c of None \<Rightarrow> None | Some m \<Rightarrow> m a)"

definition tag_of :: "string \<Rightarrow> custom \<Rightarrow> string option" where
  "tag_of a c = (case customtag c of None \<Rightarrow> None | Some m \<Rightarrow> m a)"

text \<open>The \<open>display_string\<close> entry and the whole entry stored for an account, if any.\<close>

definition stored_display_string :: "string \<Rightarrow> state \<Rightarrow> dsval option" where
  "stored_display_string account_id s =
     (case profiles_file s of
        None \<Rightarrow> None
      | Some ps \<Rightarrow> map_option display_string (ps account_id))"

subsection \<open>Concrete process states\<close>

text \<open>
  \<open>blank_state\<close> is the process right after import (every \<open>CacheData\<close> attribute is
  its empty literal; the dict of \<open>CacheData.roles\<close> is object 0) over empty documents.
  \<open>cold_state\<close> has the same empty caches over filled documents, and \<open>warm_state\<close>
  is \<open>cold_state\<close> after a first \<open>get_roles\<close>.
\<close>

definition blank_state :: state where
  "blank_state =
     \<lparr>profiles_file = Some Map.empty, roles_file = [],
      custom_file = \<lparr>customeffects = Some Map.empty, customtag = Some Map.empty\<rparr>,
      whitelist_file = [], heap = (\<lambda>_. []), next_ref = 1, cache_roles = 0,
      cache_custom = empty_custom, cache_whitelist = [], clients = Map.empty,
      clock = real, ticks = 0\<rparr>"

definition staff_roles :: roles where
  "staff_roles =
     [(''owner'', \<lparr>tag = ''owner'', tagcolor = [1, 1, 1], commands = [''kick''], ids = [''pb-1'']\<rparr>),
      (''mods'', \<lparr>tag = ''mods'', tagcolor = [1, 1, 1], commands = [], ids = [''pb-2'', ''pb-1'']\<rparr>)]"

definition old_profile :: profile where
  "old_profile =
     \<lparr>display_string = DList [''old''], profiles = [], name = ''old'', isBan = False,
      isMuted = False, accountAge = 7, registerOn = 0, canStartKickVote = True,
      spamCount = 0, lastSpam = 0, totaltimeplayer = 0, lastseen = 0\<rparr>"

definition cold_state :: state where
  "cold_state =
     blank_state
       \<lparr>profiles_file := Some [''pb-1'' \<mapsto> old_profile],
        roles_file := staff_roles,
        custom_file := \<lparr>customeffects = Some [''p2'' \<mapsto> ''ice''], customtag = Some Map.empty\<rparr>,
        whitelist_file := [''pb-1'', ''pb-2'']\<rparr>"

definition warm_state :: state where
  "warm_state = snd (get_roles cold_state)"

section \<open>Properties\<close>

subsection \<open>Reading and mutating the cached role table\<close>

lemma get_roles_view:
  assumes "get_roles s = (r, s1)"
  shows "cache_roles s1 = r" "heap s1 r = role_table s" "role_table s1 = role_table s"
    "roles_file s1 = roles_file s" "profiles_file s1 = profiles_file s"
    "custom_file s1 = custom_file s" "whitelist_file s1 = whitelist_file s"
    "cache_custom s1 = cache_custom s" "cache_whitelist s1 = cache_whitelist s"
    "clients s1 = clients s" "clock s1 = clock s" "ticks s1 = ticks s"
    "heap s (cache_roles s) \<noteq> [] \<Longrightarrow> s1 = s"
  using assms by (auto simp: get_roles_def load_roles_def role_table_def split: if_splits)

lemma get_roles_same_data: "get_roles s = (r, s1) \<Longrightarrow> same_data s s1"
  by (simp add: same_data_def get_roles_view)

lemma set_update_subset: "set (AList.update k v t) \<subseteq> insert (k, v) (set t)"
  by (induction t) auto

lemma update_nonempty: "AList.update k v t \<noteq> []"
  by (cases t) auto

text \<open>
  The common tail of the mutating role operations: assign \<open>roles[k] = v\<close> on the object
  that \<open>get_roles\<close> returned, rebind the cache to it, commit it.
\<close>

lemma mutate_commit:
  assumes "get_roles s = (r, s1)"
    and "s' = (let s2 = heap_upd r (AList.update k v) s1; s3 = s2\<lparr>cache_roles := r\<rparr>
               in commit_roles (heap s3 r) s3)"
  shows "role_table s' = AList.update k v (role_table s)"
    and "roles_file s' = AList.update k v (role_table s)"
    and "profiles_file s' = profiles_file s" and "custom_file s' = custom_file s"
    and "whitelist_file s' = whitelist_file s" and "cache_custom s' = cache_custom s"
    and "cache_whitelist s' = cache_whitelist s" and "clients s' = clients s"
  using assms(2) get_roles_view[OF assms(1)]
  by (simp_all add: Let_def heap_upd_def commit_roles_def format_roles_def role_table_def
        update_nonempty)

lemma role_table_cold: "role_table cold_state = staff_roles"
  by (simp add: role_table_def cold_state_def blank_state_def)

lemma warm_state_populated: "heap warm_state (cache_roles warm_state) = staff_roles"
  by (simp add: warm_state_def get_roles_def load_roles_def cold_state_def blank_state_def)

lemma role_table_warm: "role_table warm_state = staff_roles"
  by (simp add: role_table_def warm_state_populated staff_roles_def)

lemma get_roles_warm: "get_roles warm_state = (cache_roles warm_state, warm_state)"
  by (simp add: get_roles_def warm_state_populated staff_roles_def)

lemma dupfree_staff: "dupfree staff_roles"
  by (simp add: dupfree_def staff_roles_def)

subsection \<open>RoleStore\<close>

lemma have_roles_loop_filter:
  "set ks \<subseteq> fst ` set t \<Longrightarrow>
   have_roles_loop t account_id ks acc = Inr (acc @ filter (is_member t account_id) ks)"
proof (induction ks arbitrary: acc)
  case Nil
  then show ?case by simp
next
  case (Cons k ks)
  then have "k \<in> fst ` set t" by simp
  then obtain ro where "map_of t k = Some ro"
    by (metis map_of_eq_None_iff not_Some_eq)
  with Cons show ?case by (simp add: is_member_def)
qed

lemma is_member_keys: "is_member t account_id rl \<Longrightarrow> rl \<in> set (map fst t)"
  by (auto simp: is_member_def split: option.splits dest: map_of_SomeD intro: rev_image_eqI)

text \<open>
  C8. \<open>get_player_roles\<close> never raises and returns the keys of the role table, in the
  table's own order, whose \<open>ids\<close> list holds the account: exactly the roles the account
  is a member of. Its only effect on the process is that of the \<open>get_roles\<close> call it
  starts with; no document, no role and no other cache changes, and with a populated
  role cache the process state is left as it was.
\<close>

theorem get_player_roles_spec:
  "fst (get_player_roles account_id s) =
      Inr (filter (is_member (role_table s) account_id) (map fst (role_table s))) \<and>
   set (filter (is_member (role_table s) account_id) (map fst (role_table s)))
      = {rl. is_member (role_table s) account_id rl} \<and>
   snd (get_player_roles account_id s) = snd (get_roles s) \<and>
   same_data s (snd (get_player_roles account_id s))"
proof -
  obtain r s1 where g: "get_roles s = (r, s1)" by (cases "get_roles s")
  have h: "heap s1 r = role_table s" by (rule get_roles_view[OF g])
  have "set (filter (is_member (role_table s) account_id) (map fst (role_table s)))
      = {rl. is_member (role_table s) account_id rl}"
    using is_member_keys by auto
  then show ?thesis
    using g h get_roles_same_data[OF g]
    by (simp add: get_player_roles_def have_roles_loop_filter)
qed

theorem get_player_roles_spec_witness:
  "heap warm_state (cache_roles warm_state) \<noteq> [] \<and>
   get_player_roles ''pb-1'' warm_state = (Inr [''owner'', ''mods''], warm_state) \<and>
   fst (get_player_roles ''pb-2'' cold_state) = Inr [''mods''] \<and>
   fst (get_player_roles ''pb-3'' cold_state) = Inr []"
proof -
  have p: "heap warm_state (cache_roles warm_state) \<noteq> []"
    by (simp add: warm_state_populated staff_roles_def)
  have "fst (get_player_roles ''pb-1'' warm_state) = Inr [''owner'', ''mods''] \<and>
        snd (get_player_roles ''pb-1'' warm_state) = warm_state"
    using get_player_roles_spec [of "''pb-1''" warm_state] p
    by (simp add: same_data_def role_table_warm staff_roles_def is_member_def get_roles_warm)
  then have "get_player_roles ''pb-1'' warm_state = (Inr [''owner'', ''mods''], warm_state)"
    by (simp add: prod_eq_iff)
  moreover have "fst (get_player_roles ''pb-2'' cold_state) = Inr [''mods'']"
    "fst (get_player_roles ''pb-3'' cold_state) = Inr []"
    using get_player_roles_spec [of "''pb-2''" cold_state] get_player_roles_spec [of "''pb-3''" cold_state]
    by (simp_all add: role_table_cold staff_roles_def is_member_def)
  ultimately show ?thesis using p by simp
qed

text \<open>
  C4. \<open>add_command_role\<close> appends the command to the role's command list exactly when
  the role is in the table and does not have the command yet; it then returns
  \<open>"command added to " + role\<close> and the table is committed. In the two other cases
  (unknown role; known role that already has the command) it returns the same string
  \<open>"command not exists"\<close> and changes no data.
\<close>

theorem add_command_role_spec:
  assumes "add_command_role rl command s = (st, s')"
  shows "case map_of (role_table s) rl of
           Some ro \<Rightarrow>
             if command \<notin> set (commands ro) then
               st = ''command added to '' @ rl \<and>
               role_table s' =
                 AList.update rl (ro\<lparr>commands := commands ro @ [command]\<rparr>) (role_table s) \<and>
               roles_file s' = role_table s'
             else st = ''command not exists'' \<and> same_data s s'
         | None \<Rightarrow> st = ''command not exists'' \<and> same_data s s'"
proof -
  obtain r s1 where g: "get_roles s = (r, s1)" by (cases "get_roles s")
  have h: "heap s1 r = role_table s" by (rule get_roles_view[OF g])
  show ?thesis
  proof (cases "map_of (role_table s) rl")
    case None
    with assms g h get_roles_same_data[OF g] show ?thesis
      by (simp add: add_command_role_def)
  next
    case (Some ro)
    show ?thesis
    proof (cases "command \<in> set (commands ro)")
      case True
      with Some assms g h get_roles_same_data[OF g] show ?thesis
        by (simp add: add_command_role_def)
    next
      case False
      define v where "v = ro\<lparr>commands := commands ro @ [command]\<rparr>"
      have s': "s' = (let s2 = heap_upd r (AList.update rl v) s1; s3 = s2\<lparr>cache_roles := r\<rparr>
               in commit_roles (heap s3 r) s3)" and st: "st = ''command added to '' @ rl"
        using assms g h Some False by (simp_all add: add_command_role_def v_def Let_def)
      from mutate_commit(1,2)[OF g s'] st Some False show ?thesis
        by (simp add: v_def)
    qed
  qed
qed

theorem add_command_role_spec_witness:
  "fst (add_command_role ''mods'' ''kick'' warm_state) = ''command added to mods'' \<and>
   map_of (role_table (snd (add_command_role ''mods'' ''kick'' warm_state))) ''mods''
     = Some \<lparr>tag = ''mods'', tagcolor = [1, 1, 1], commands = [''kick''], ids = [''pb-2'', ''pb-1'']\<rparr> \<and>
   add_command_role ''fake'' ''kick'' warm_state = (''command not exists'', warm_state) \<and>
   add_command_role ''owner'' ''kick'' warm_state = (''command not exists'', warm_state)"
proof -
  have p: "heap warm_state (cache_roles warm_state) \<noteq> []"
    by (simp add: warm_state_populated staff_roles_def)
  have a: "fst (add_command_role ''mods'' ''kick'' warm_state) = ''command added to mods'' \<and>
   map_of (role_table (snd (add_command_role ''mods'' ''kick'' warm_state))) ''mods''
     = Some \<lparr>tag = ''mods'', tagcolor = [1, 1, 1], commands = [''kick''], ids = [''pb-2'', ''pb-1'']\<rparr>"
    using add_command_role_spec [OF surjective_pairing, of "''mods''" "''kick''" warm_state]
    by (simp add: role_table_warm staff_roles_def)
  have b: "fst (add_command_role ''fake'' ''kick'' warm_state) = ''command not exists'' \<and>
           snd (add_command_role ''fake'' ''kick'' warm_state) = warm_state"
    using add_command_role_spec [OF surjective_pairing, of "''fake''" "''kick''" warm_state] p
    by (simp add: role_table_warm staff_roles_def same_data_def)
  have c: "fst (add_command_role ''owner'' ''kick'' warm_state) = ''command not exists'' \<and>
           snd (add_command_role ''owner'' ''kick'' warm_state) = warm_state"
    using add_command_role_spec [OF surjective_pairing, of "''owner''" "''kick''" warm_state] p
    by (simp add: role_table_warm staff_roles_def same_data_def)
  from a b c show ?thesis by (simp add: prod_eq_iff)
qed

text \<open>
  C3. \<open>remove_player_role\<close> on a known role that lists the account removes the first
  occurrence of the account from the role's \<open>ids\<close> (so the account is no longer a member
  when the list had no duplicates), commits the table and returns
  \<open>"removed from " + role\<close>; on an unknown role it returns \<open>"role not exists"\<close> and
  changes no data; on a known role that does not list the account it raises
  \<open>ValueError\<close>, the failure of \<open>list.remove\<close>, and returns no status.
\<close>

theorem remove_player_role_spec:
  assumes "remove_player_role rl account_id s = (res, s')"
  shows "case map_of (role_table s) rl of
           Some ro \<Rightarrow>
             if account_id \<in> set (ids ro) then
               res = Inr (''removed from '' @ rl) \<and>
               role_table s' =
                 AList.update rl (ro\<lparr>ids := remove1 account_id (ids ro)\<rparr>) (role_table s) \<and>
               roles_file s' = role_table s' \<and>
               (distinct (ids ro) \<longrightarrow> \<not> is_member (role_table s') account_id rl)
             else res = Inl ValueError \<and> same_data s s'
         | None \<Rightarrow> res = Inr ''role not exists'' \<and> same_data s s'"
proof -
  obtain r s1 where g: "get_roles s = (r, s1)" by (cases "get_roles s")
  have h: "heap s1 r = role_table s" by (rule get_roles_view[OF g])
  show ?thesis
  proof (cases "map_of (role_table s) rl")
    case None
    with assms g h get_roles_same_data[OF g] show ?thesis
      by (simp add: remove_player_role_def)
  next
    case (Some ro)
    show ?thesis
    proof (cases "account_id \<in> set (ids ro)")
      case False
      with Some assms g h get_roles_same_data[OF g] show ?thesis
        by (simp add: remove_player_role_def)
    next
      case True
      define v where "v = ro\<lparr>ids := remove1 account_id (ids ro)\<rparr>"
      have s': "s' = (let s2 = heap_upd r (AList.update rl v) s1; s3 = s2\<lparr>cache_roles := r\<rparr>
               in commit_roles (heap s3 r) s3)" and res: "res = Inr (''removed from '' @ rl)"
        using assms g h Some True by (simp_all add: remove_player_role_def v_def Let_def)
      have t': "role_table s' = AList.update rl v (role_table s)"
        by (rule mutate_commit(1)[OF g s'])
      have "\<not> is_member (role_table s') account_id rl" if "distinct (ids ro)"
        using that by (simp add: t' is_member_def update_conv' v_def)
      with mutate_commit(1,2)[OF g s'] res Some True show ?thesis
        by (simp add: v_def)
    qed
  qed
qed

theorem remove_player_role_spec_witness:
  "fst (remove_player_role ''mods'' ''pb-1'' warm_state) = Inr ''removed from mods'' \<and>
   map_of (role_table (snd (remove_player_role ''mods'' ''pb-1'' warm_state))) ''mods''
     = Some \<lparr>tag = ''mods'', tagcolor = [1, 1, 1], commands = [], ids = [''pb-2'']\<rparr> \<and>
   \<not> is_member (role_table (snd (remove_player_role ''mods'' ''pb-1'' warm_state))) ''pb-1'' ''mods'' \<and>
   remove_player_role ''fake'' ''pb-1'' warm_state = (Inr ''role not exists'', warm_state) \<and>
   remove_player_role ''owner'' ''pb-2'' warm_state = (Inl ValueError, warm_state)"
proof -
  have p: "heap warm_state (cache_roles warm_state) \<noteq> []"
    by (simp add: warm_state_populated staff_roles_def)
  have a: "fst (remove_player_role ''mods'' ''pb-1'' warm_state) = Inr ''removed from mods'' \<and>
   map_of (role_table (snd (remove_player_role ''mods'' ''pb-1'' warm_state))) ''mods''
     = Some \<lparr>tag = ''mods'', tagcolor = [1, 1, 1], commands = [], ids = [''pb-2'']\<rparr> \<and>
   \<not> is_member (role_table (snd (remove_player_role ''mods'' ''pb-1'' warm_state))) ''pb-1'' ''mods''"
    using remove_player_role_spec [OF surjective_pairing, of "''mods''" "''pb-1''" warm_state]
    by (simp add: role_table_warm staff_roles_def is_member_def)
  have b: "fst (remove_player_role ''fake'' ''pb-1'' warm_state) = Inr ''role not exists'' \<and>
           snd (remove_player_role ''fake'' ''pb-1'' warm_state) = warm_state"
    using remove_player_role_spec [OF surjective_pairing, of "''fake''" "''pb-1''" warm_state] p
    by (simp add: role_table_warm staff_roles_def same_data_def)
  have c: "fst (remove_player_role ''owner'' ''pb-2'' warm_state) = Inl ValueError \<and>
           snd (remove_player_role ''owner'' ''pb-2'' warm_state) = warm_state"
    using remove_player_role_spec [OF surjective_pairing, of "''owner''" "''pb-2''" warm_state] p
    by (simp add: role_table_warm staff_roles_def same_data_def)
  from a b c show ?thesis by (simp add: prod_eq_iff)
qed

lemma dupfree_update:
  "dupfree t \<Longrightarrow> distinct (ids v) \<Longrightarrow> dupfree (AList.update k v t)"
  using set_update_subset[of k v t] by (fastforce simp: dupfree_def)

lemma add_player_role_dupfree:
  assumes "dupfree (role_table s)" and "dupfree (roles_file s)"
  shows "dupfree (role_table (add_player_role rl account_id s)) \<and>
         dupfree (roles_file (add_player_role rl account_id s))"
proof -
  obtain r s1 where g: "get_roles s = (r, s1)" by (cases "get_roles s")
  have h: "heap s1 r = role_table s" by (rule get_roles_view[OF g])
  note keep = get_roles_view(3,4)[OF g]
  show ?thesis
  proof (cases "map_of (role_table s) rl")
    case None
    with assms g h keep show ?thesis by (simp add: add_player_role_def)
  next
    case (Some ro)
    show ?thesis
    proof (cases "account_id \<in> set (ids ro)")
      case True
      with Some assms g h keep show ?thesis by (simp add: add_player_role_def)
    next
      case False
      define v where "v = ro\<lparr>ids := ids ro @ [account_id]\<rparr>"
      define s' where "s' = add_player_role rl account_id s"
      have s': "s' = (let s2 = heap_upd r (AList.update rl v) s1; s3 = s2\<lparr>cache_roles := r\<rparr>
               in commit_roles (heap s3 r) s3)"
        using g h Some False by (simp add: s'_def add_player_role_def v_def Let_def)
      have "(rl, ro) \<in> set (role_table s)" using Some by (rule map_of_SomeD)
      then have "distinct (ids ro)" using assms(1) by (force simp: dupfree_def)
      then have "distinct (ids v)" using False by (simp add: v_def)
      then have "dupfree (AList.update rl v (role_table s))"
        using assms(1) by (intro dupfree_update)
      with mutate_commit(1,2)[OF g s'] show ?thesis by (simp add: s'_def)
    qed
  qed
qed

text \<open>
  C7. Whatever sequence of \<open>add_player_role\<close> calls runs, with whatever repetitions: if
  no member list of the starting role table (and of the stored role document) holds an
  account twice, none does afterwards.
\<close>

theorem add_player_roles_no_duplicates:
  "dupfree (role_table s) \<Longrightarrow> dupfree (roles_file s) \<Longrightarrow>
   dupfree (role_table (add_player_roles calls s)) \<and>
   dupfree (roles_file (add_player_roles calls s))"
proof (induction calls arbitrary: s)
  case Nil
  then show ?case by (simp add: add_player_roles_def)
next
  case (Cons c calls)
  obtain rl account_id where c: "c = (rl, account_id)" by (cases c)
  have "add_player_roles (c # calls) s = add_player_roles calls (add_player_role rl account_id s)"
    by (simp add: add_player_roles_def c)
  with Cons.IH add_player_role_dupfree[OF Cons.prems] show ?case by simp
qed

theorem add_player_roles_no_duplicates_witness:
  "dupfree (role_table cold_state) \<and> dupfree (roles_file cold_state) \<and>
   dupfree (role_table (add_player_roles
      [(''mods'', ''pb-3''), (''mods'', ''pb-3''), (''owner'', ''pb-3''), (''fake'', ''pb-3'')]
      cold_state)) \<and>
   map_option ids (map_of (role_table (add_player_roles
      [(''mods'', ''pb-3''), (''mods'', ''pb-3''), (''owner'', ''pb-3''), (''fake'', ''pb-3'')]
      cold_state)) ''mods'') = Some [''pb-2'', ''pb-1'', ''pb-3'']"
proof -
  have a: "dupfree (role_table cold_state)"
    by (simp add: role_table_cold dupfree_staff)
  have b: "dupfree (roles_file cold_state)"
    by (simp add: cold_state_def blank_state_def dupfree_staff)
  have c: "map_option ids (map_of (role_table (add_player_roles
      [(''mods'', ''pb-3''), (''mods'', ''pb-3''), (''owner'', ''pb-3''), (''fake'', ''pb-3'')]
      cold_state)) ''mods'') = Some [''pb-2'', ''pb-1'', ''pb-3'']"
    by (simp add: add_player_roles_def add_player_role_def get_roles_def load_roles_def
        cold_state_def blank_state_def staff_roles_def heap_upd_def commit_roles_def
        format_roles_def role_table_def Let_def)
  from add_player_roles_no_duplicates [OF a b] a b c show ?thesis by simp
qed

subsection \<open>\<open>update_toppers\<close> and the two references to the role table\<close>

lemma get_roles_miss:
  "heap s (cache_roles s) = [] \<Longrightarrow>
   get_roles s =
     (next_ref s,
      s\<lparr>heap := (heap s)(next_ref s := roles_file s), next_ref := Suc (next_ref s),
        cache_roles := next_ref s\<rparr>)"
  by (simp add: get_roles_def load_roles_def)

lemma create_role_on_empty:
  assumes "heap s (cache_roles s) = []" and "roles_file s = []"
  shows "create_role rl s =
     s\<lparr>heap := (heap s)(next_ref s := [(rl, new_role rl)]), next_ref := Suc (next_ref s),
       cache_roles := next_ref s, roles_file := [(rl, new_role rl)]\<rparr>"
  using assms
  by (simp add: create_role_def get_roles_miss heap_upd_def commit_roles_def format_roles_def)

lemma update_toppers_empty_table:
  assumes "role_table s = []"
  shows "fst (update_toppers l s) = Inr () \<and>
         role_table (snd (update_toppers l s)) = top5_only l \<and>
         roles_file (snd (update_toppers l s)) = top5_only []"
proof -
  from assms have c: "heap s (cache_roles s) = []" and f: "roles_file s = []"
    by (simp_all add: role_table_def split: if_splits)
  define s1 where "s1 = s\<lparr>heap := (heap s)(next_ref s := []), next_ref := Suc (next_ref s),
        cache_roles := next_ref s\<rparr>"
  have g: "get_roles s = (next_ref s, s1)"
    using get_roles_miss[OF c] f by (simp add: s1_def)
  have c1: "heap s1 (cache_roles s1) = []" and f1: "roles_file s1 = []"
    using f by (simp_all add: s1_def)
  define s2 where "s2 = create_role ''top5'' s1"
  have s2: "s2 = s1\<lparr>heap := (heap s1)(next_ref s1 := [(''top5'', new_role ''top5'')]),
       next_ref := Suc (next_ref s1), cache_roles := next_ref s1,
       roles_file := [(''top5'', new_role ''top5'')]\<rparr>"
    unfolding s2_def by (rule create_role_on_empty[OF c1 f1])
  have h1: "heap s1 (next_ref s) = []" by (simp add: s1_def)
  have n1: "next_ref s1 = Suc (next_ref s)" by (simp add: s1_def)
  have u: "update_toppers l s =
     (case map_of (heap s2 (cache_roles s2)) ''top5'' of
           None \<Rightarrow> (Inl KeyError, s2)
         | Some ro \<Rightarrow>
             (let s3 = heap_upd (cache_roles s2) (AList.update ''top5'' (ro\<lparr>ids := l\<rparr>)) s2
              in (Inr (), commit_roles (heap s3 (next_ref s)) s3)))"
    unfolding s2_def using g h1 by (simp add: update_toppers_def Let_def)
  have c2: "cache_roles s2 = Suc (next_ref s)" and h2: "heap s2 (Suc (next_ref s)) = [(''top5'', new_role ''top5'')]"
    and h2': "heap s2 (next_ref s) = []" and f2: "roles_file s2 = [(''top5'', new_role ''top5'')]"
    using h1 n1 by (simp_all add: s2)
  show ?thesis
    unfolding u using c2 h2 h2' f2
    by (simp add: heap_upd_def commit_roles_def role_table_def new_role_def top5_only_def)
qed

lemma role_table_blank: "role_table blank_state = []"
  by (simp add: role_table_def blank_state_def)

lemma get_roles_hit:
  "heap s (cache_roles s) \<noteq> [] \<Longrightarrow> get_roles s = (cache_roles s, s)"
  by (simp add: get_roles_def)

lemma create_role_new_on_hit:
  assumes "heap s (cache_roles s) \<noteq> []" and "rl \<notin> fst ` set (heap s (cache_roles s))"
  shows "create_role rl s =
     s\<lparr>heap := (heap s)(cache_roles s := AList.update rl (new_role rl) (heap s (cache_roles s))),
       roles_file := AList.update rl (new_role rl) (heap s (cache_roles s))\<rparr>"
  using assms
  by (simp add: create_role_def get_roles_hit heap_upd_def commit_roles_def format_roles_def
      update_nonempty)

lemma update_toppers_nonempty_table:
  assumes "role_table s \<noteq> []"
  shows "fst (update_toppers l s) = Inr () \<and>
         role_table (snd (update_toppers l s)) =
           AList.update ''top5''
             ((case map_of (role_table s) ''top5'' of
                 Some ro \<Rightarrow> ro | None \<Rightarrow> new_role ''top5'')\<lparr>ids := l\<rparr>)
             (role_table s) \<and>
         roles_file (snd (update_toppers l s)) = role_table (snd (update_toppers l s))"
proof -
  obtain r s1 where g: "get_roles s = (r, s1)" by (cases "get_roles s")
  note v = get_roles_view(1,2)[OF g]
  have ne: "heap s1 (cache_roles s1) \<noteq> []" using v assms by simp
  show ?thesis
  proof (cases "map_of (role_table s) ''top5''")
    case (Some ro)
    then have k: "''top5'' \<in> fst ` set (role_table s)"
      by (metis map_of_eq_None_iff option.distinct(1))
    have u: "update_toppers l s =
       (let s3 = heap_upd r (AList.update ''top5'' (ro\<lparr>ids := l\<rparr>)) s1
        in (Inr (), commit_roles (heap s3 r) s3))"
      using g v k Some by (simp add: update_toppers_def)
    show ?thesis
      unfolding u using v Some
      by (simp add: heap_upd_def commit_roles_def format_roles_def role_table_def update_nonempty)
  next
    case None
    then have k: "''top5'' \<notin> fst ` set (heap s1 (cache_roles s1))"
      using v by (simp add: map_of_eq_None_iff)
    define t where "t = AList.update ''top5'' (new_role ''top5'') (role_table s)"
    define s2 where "s2 = s1\<lparr>heap := (heap s1)(r := t), roles_file := t\<rparr>"
    have c: "create_role ''top5'' s1 = s2"
      using create_role_new_on_hit[OF ne k] v by (simp add: s2_def t_def)
    have m: "map_of (heap s2 (cache_roles s2)) ''top5'' = Some (new_role ''top5'')"
      using v by (simp add: s2_def t_def update_conv')
    have u: "update_toppers l s =
       (let s3 = heap_upd (cache_roles s2) (AList.update ''top5'' ((new_role ''top5'')\<lparr>ids := l\<rparr>)) s2
        in (Inr (), commit_roles (heap s3 r) s3))"
      using g v k c m by (simp add: update_toppers_def)
    show ?thesis
      unfolding u using v None
      by (simp add: s2_def t_def heap_upd_def commit_roles_def format_roles_def role_table_def
          update_nonempty)
  qed
qed

text \<open>
  C5 on a new process over an empty role document: \<open>update_toppers\<close> returns
  normally and the cached \<open>top5\<close> role gets the list, but the stored document keeps the
  empty member list that \<open>create_role\<close> wrote. The local \<open>roles\<close> is the empty dict
  loaded first, which \<open>commit_roles\<close> refuses to write, while \<open>create_role\<close> has bound
  \<open>CacheData.roles\<close> to a second dict. A second call with the same list then changes
  the stored document.
\<close>

theorem update_toppers_blank_not_persisted:
  "fst (update_toppers [''a'', ''b'', ''c''] blank_state) = Inr () \<and>
   role_table (snd (update_toppers [''a'', ''b'', ''c''] blank_state))
     = top5_only [''a'', ''b'', ''c''] \<and>
   roles_file (snd (update_toppers [''a'', ''b'', ''c''] blank_state)) = top5_only [] \<and>
   roles_file (snd (update_toppers [''a'', ''b'', ''c'']
                      (snd (update_toppers [''a'', ''b'', ''c''] blank_state))))
     = top5_only [''a'', ''b'', ''c'']"
proof -
  define s1 where "s1 = snd (update_toppers [''a'', ''b'', ''c''] blank_state)"
  have first: "fst (update_toppers [''a'', ''b'', ''c''] blank_state) = Inr () \<and>
      role_table s1 = top5_only [''a'', ''b'', ''c''] \<and> roles_file s1 = top5_only []"
    unfolding s1_def by (rule update_toppers_empty_table[OF role_table_blank])
  then have ne: "role_table s1 \<noteq> []" by (simp add: top5_only_def)
  have "roles_file (snd (update_toppers [''a'', ''b'', ''c''] s1)) = top5_only [''a'', ''b'', ''c'']"
    using update_toppers_nonempty_table[OF ne, of "[''a'', ''b'', ''c'']"] first
    by (simp add: top5_only_def)
  with first show ?thesis by (simp add: s1_def)
qed

subsection \<open>CustomStore\<close>

lemma get_custom_state: "snd (get_custom s) = s"
  by (simp add: get_custom_def)

lemma get_custom_populated:
  "\<not> is_empty_custom (cache_custom s) \<Longrightarrow> get_custom s = (cache_custom s, s)"
  by (simp add: get_custom_def)

lemma set_effect_result:
  assumes "set_effect effect account_id s = (Inr (), s')"
  shows "\<not> is_empty_custom (cache_custom s')" "custom_file s' = cache_custom s'"
    "\<exists>m. customeffects (cache_custom s') = Some m \<and> m account_id = Some effect"
  using assms
  by (auto simp: set_effect_def get_custom_def load_custom_def commit_c_def dump_custom_def
        is_empty_custom_def Let_def split: if_splits option.splits)

lemma set_tag_result:
  assumes "set_tag tg account_id s = (Inr (), s')"
  shows "\<not> is_empty_custom (cache_custom s')" "custom_file s' = cache_custom s'"
    "\<exists>m. customtag (cache_custom s') = Some m \<and> m account_id = Some tg"
  using assms
  by (auto simp: set_tag_def get_custom_def load_custom_def commit_c_def dump_custom_def
        is_empty_custom_def Let_def split: if_splits option.splits)

lemma read_keeps_cache:
  "is_empty_custom (cache_custom s) \<Longrightarrow> \<not> is_write op \<Longrightarrow>
   is_empty_custom (cache_custom (run_custom_op op s))"
  by (cases op) (simp_all add: get_custom_state)

text \<open>
  On a populated cache, an operation that does not write the effect entry of an account
  leaves the cache populated and that entry as it was, whether it returns or raises; the
  same for the tag entry.
\<close>

lemma effect_kept:
  assumes "\<not> is_empty_custom (cache_custom s)"
    and "effect_of a (cache_custom s) = Some e"
    and "\<not> touches_effect a op"
  shows "\<not> is_empty_custom (cache_custom (run_custom_op op s)) \<and>
         effect_of a (cache_custom (run_custom_op op s)) = Some e"
proof (cases op)
  case GetCustom
  with assms show ?thesis by (simp add: get_custom_state)
next
  case (SetEffect effect account_id)
  with assms show ?thesis
    by (auto simp: set_effect_def get_custom_populated commit_c_def dump_custom_def
        is_empty_custom_def effect_of_def Let_def split: option.splits)
next
  case (SetTag tg account_id)
  with assms show ?thesis
    by (auto simp: set_tag_def get_custom_populated commit_c_def dump_custom_def
        is_empty_custom_def effect_of_def Let_def split: option.splits)
next
  case (RemoveEffect account_id)
  with assms show ?thesis
    by (auto simp: remove_effect_def get_custom_populated commit_c_def dump_custom_def
        is_empty_custom_def effect_of_def Let_def split: option.splits)
next
  case (RemoveTag account_id)
  with assms show ?thesis
    by (auto simp: remove_tag_def get_custom_populated commit_c_def dump_custom_def
        is_empty_custom_def effect_of_def Let_def split: option.splits)
qed

lemma tag_kept:
  assumes "\<not> is_empty_custom (cache_custom s)"
    and "tag_of a (cache_custom s) = Some e"
    and "\<not> touches_tag a op"
  shows "\<not> is_empty_custom (cache_custom (run_custom_op op s)) \<and>
         tag_of a (cache_custom (run_custom_op op s)) = Some e"
proof (cases op)
  case GetCustom
  with assms show ?thesis by (simp add: get_custom_state)
next
  case (SetEffect effect account_id)
  with assms show ?thesis
    by (auto simp: set_effect_def get_custom_populated commit_c_def dump_custom_def
        is_empty_custom_def tag_of_def Let_def split: option.splits)
next
  case (SetTag tg account_id)
  with assms show ?thesis
    by (auto simp: set_tag_def get_custom_populated commit_c_def dump_custom_def
        is_empty_custom_def tag_of_def Let_def split: option.splits)
next
  case (RemoveEffect account_id)
  with assms show ?thesis
    by (auto simp: remove_effect_def get_custom_populated commit_c_def dump_custom_def
        is_empty_custom_def tag_of_def Let_def split: option.splits)
next
  case (RemoveTag account_id)
  with assms show ?thesis
    by (auto simp: remove_tag_def get_custom_populated commit_c_def dump_custom_def
        is_empty_custom_def tag_of_def Let_def split: option.splits)
qed

lemma effect_kept_ops:
  "\<not> is_empty_custom (cache_custom s) \<Longrightarrow> effect_of a (cache_custom s) = Some e \<Longrightarrow>
   \<forall>op \<in> set ops. \<not> touches_effect a op \<Longrightarrow>
   \<not> is_empty_custom (cache_custom (run_custom_ops ops s)) \<and>
   effect_of a (cache_custom (run_custom_ops ops s)) = Some e"
proof (induction ops arbitrary: s)
  case Nil
  then show ?case by (simp add: run_custom_ops_def)
next
  case (Cons op ops)
  from effect_kept[OF Cons.prems(1,2), of op] Cons.prems(3)
  have "\<not> is_empty_custom (cache_custom (run_custom_op op s)) \<and>
        effect_of a (cache_custom (run_custom_op op s)) = Some e" by simp
  with Cons.IH[of "run_custom_op op s"] Cons.prems(3) show ?case
    by (simp add: run_custom_ops_def)
qed

lemma tag_kept_ops:
  "\<not> is_empty_custom (cache_custom s) \<Longrightarrow> tag_of a (cache_custom s) = Some e \<Longrightarrow>
   \<forall>op \<in> set ops. \<not> touches_tag a op \<Longrightarrow>
   \<not> is_empty_custom (cache_custom (run_custom_ops ops s)) \<and>
   tag_of a (cache_custom (run_custom_ops ops s)) = Some e"
proof (induction ops arbitrary: s)
  case Nil
  then show ?case by (simp add: run_custom_ops_def)
next
  case (Cons op ops)
  from tag_kept[OF Cons.prems(1,2), of op] Cons.prems(3)
  have "\<not> is_empty_custom (cache_custom (run_custom_op op s)) \<and>
        tag_of a (cache_custom (run_custom_op op s)) = Some e" by simp
  with Cons.IH[of "run_custom_op op s"] Cons.prems(3) show ?case
    by (simp add: run_custom_ops_def)
qed

text \<open>
  C1, as the code has it. With an unpopulated custom cache \<open>get_custom\<close> returns the
  stored document and leaves the state, hence the cache, as it was. Among the operations
  of the CustomStore only the four writers (\<open>set_effect\<close>, \<open>set_tag\<close>,
  \<open>remove_effect\<close>, \<open>remove_tag\<close>) can turn an unpopulated cache into a populated
  one. After a \<open>set_effect\<close> that returned, the cache is populated, equal to the stored
  document, and maps the account to the effect written; and after any further sequence
  of CustomStore operations (reads and writes, returning or raising) that does not set or
  remove the effect of that account, \<open>get_custom\<close> leaves the state unchanged and returns
  the cached document, which still maps the account to that effect. The same holds for
  \<open>set_tag\<close> and the tag of the account. (The source's parameter order is
  \<open>set_effect(effect, account_id)\<close>.)
\<close>

theorem custom_cache_contract:
  "(is_empty_custom (cache_custom s) \<longrightarrow> get_custom s = (load_custom s, s)) \<and>
   (is_empty_custom (cache_custom s) \<and> \<not> is_empty_custom (cache_custom (run_custom_op op s))
      \<longrightarrow> is_write op) \<and>
   (set_effect effect account_id s = (Inr (), s') \<longrightarrow>
      \<not> is_empty_custom (cache_custom s') \<and> custom_file s' = cache_custom s' \<and>
      (\<exists>m. customeffects (cache_custom s') = Some m \<and> m account_id = Some effect) \<and>
      ((\<forall>op \<in> set ops. \<not> touches_effect account_id op) \<longrightarrow>
         get_custom (run_custom_ops ops s')
           = (cache_custom (run_custom_ops ops s'), run_custom_ops ops s') \<and>
         effect_of account_id (fst (get_custom (run_custom_ops ops s'))) = Some effect)) \<and>
   (set_tag tg account_id s = (Inr (), s') \<longrightarrow>
      \<not> is_empty_custom (cache_custom s') \<and> custom_file s' = cache_custom s' \<and>
      (\<exists>m. customtag (cache_custom s') = Some m \<and> m account_id = Some tg) \<and>
      ((\<forall>op \<in> set ops. \<not> touches_tag account_id op) \<longrightarrow>
         get_custom (run_custom_ops ops s')
           = (cache_custom (run_custom_ops ops s'), run_custom_ops ops s') \<and>
         tag_of account_id (fst (get_custom (run_custom_ops ops s'))) = Some tg))"
proof (intro conjI impI)
  show "get_custom s = (load_custom s, s)" if "is_empty_custom (cache_custom s)"
    using that by (simp add: get_custom_def)
  show "is_write op"
    if "is_empty_custom (cache_custom s) \<and> \<not> is_empty_custom (cache_custom (run_custom_op op s))"
    using that read_keeps_cache by blast
next
  assume a: "set_effect effect account_id s = (Inr (), s')"
  show p: "\<not> is_empty_custom (cache_custom s')" by (rule set_effect_result(1)[OF a])
  show "custom_file s' = cache_custom s'" by (rule set_effect_result(2)[OF a])
  show "\<exists>m. customeffects (cache_custom s') = Some m \<and> m account_id = Some effect"
    by (rule set_effect_result(3)[OF a])
  then have e: "effect_of account_id (cache_custom s') = Some effect"
    by (auto simp: effect_of_def)
  assume n: "\<forall>op \<in> set ops. \<not> touches_effect account_id op"
  note k = effect_kept_ops[OF p e n]
  show g: "get_custom (run_custom_ops ops s')
      = (cache_custom (run_custom_ops ops s'), run_custom_ops ops s')"
    using k by (simp add: get_custom_populated)
  show "effect_of account_id (fst (get_custom (run_custom_ops ops s'))) = Some effect"
    using k by (simp add: g)
next
  assume a: "set_tag tg account_id s = (Inr (), s')"
  show p: "\<not> is_empty_custom (cache_custom s')" by (rule set_tag_result(1)[OF a])
  show "custom_file s' = cache_custom s'" by (rule set_tag_result(2)[OF a])
  show "\<exists>m. customtag (cache_custom s') = Some m \<and> m account_id = Some tg"
    by (rule set_tag_result(3)[OF a])
  then have e: "tag_of account_id (cache_custom s') = Some tg"
    by (auto simp: tag_of_def)
  assume n: "\<forall>op \<in> set ops. \<not> touches_tag account_id op"
  note k = tag_kept_ops[OF p e n]
  show g: "get_custom (run_custom_ops ops s')
      = (cache_custom (run_custom_ops ops s'), run_custom_ops ops s')"
    using k by (simp add: get_custom_populated)
  show "tag_of account_id (fst (get_custom (run_custom_ops ops s'))) = Some tg"
    using k by (simp add: g)
qed

lemma cold_cache_custom: "cache_custom cold_state = empty_custom"
  by (simp add: cold_state_def blank_state_def)

lemma cold_custom_file:
  "custom_file cold_state = \<lparr>customeffects = Some [''p2'' \<mapsto> ''ice''], customtag = Some Map.empty\<rparr>"
  by (simp add: cold_state_def blank_state_def)

lemma cold_get_custom: "get_custom cold_state = (custom_file cold_state, cold_state)"
  by (simp add: get_custom_def load_custom_def cold_cache_custom empty_custom_def is_empty_custom_def)

text \<open>
  C1 as stated fails: \<open>remove_effect\<close> is neither \<open>set_effect\<close> nor \<open>set_tag\<close>, and
  on a new process whose custom document has an effect for \<open>p2\<close> it returns normally and
  leaves the cache populated.
\<close>

theorem remove_effect_populates_cache:
  "is_empty_custom (cache_custom cold_state) \<and>
   fst (remove_effect ''p2'' cold_state) = Inr () \<and>
   \<not> is_empty_custom (cache_custom (run_custom_op (RemoveEffect ''p2'') cold_state)) \<and>
   \<not> is_set (RemoveEffect ''p2'')"
  by (simp add: remove_effect_def cold_get_custom cold_custom_file cold_cache_custom
      empty_custom_def is_empty_custom_def commit_c_def dump_custom_def Let_def)

theorem custom_cache_contract_witness:
  "is_empty_custom (cache_custom cold_state) \<and>
   get_custom cold_state = (custom_file cold_state, cold_state) \<and>
   fst (set_effect ''fire'' ''p1'' cold_state) = Inr () \<and>
   \<not> is_empty_custom (cache_custom (run_custom_op (SetEffect ''fire'' ''p1'') cold_state)) \<and>
   is_write (SetEffect ''fire'' ''p1'') \<and>
   effect_of ''p1''
     (fst (get_custom
        (run_custom_ops
           [GetCustom, SetTag ''boss'' ''p1'', SetEffect ''zap'' ''p2'', RemoveEffect ''p2'',
            RemoveEffect ''p9'', RemoveTag ''p1'', GetCustom]
           (snd (set_effect ''fire'' ''p1'' cold_state)))))
     = Some ''fire'' \<and>
   fst (set_tag ''boss'' ''p1'' cold_state) = Inr () \<and>
   tag_of ''p1''
     (fst (get_custom
        (run_custom_ops
           [GetCustom, SetEffect ''fire'' ''p1'', SetTag ''vip'' ''p2'', RemoveTag ''p2'',
            RemoveEffect ''p1'', GetCustom]
           (snd (set_tag ''boss'' ''p1'' cold_state)))))
     = Some ''boss''"
proof -
  let ?ops1 = "[GetCustom, SetTag ''boss'' ''p1'', SetEffect ''zap'' ''p2'', RemoveEffect ''p2'',
            RemoveEffect ''p9'', RemoveTag ''p1'', GetCustom]"
  let ?ops2 = "[GetCustom, SetEffect ''fire'' ''p1'', SetTag ''vip'' ''p2'', RemoveTag ''p2'',
            RemoveEffect ''p1'', GetCustom]"
  let ?s1 = "snd (set_effect ''fire'' ''p1'' cold_state)"
  let ?s2 = "snd (set_tag ''boss'' ''p1'' cold_state)"
  have e: "is_empty_custom (cache_custom cold_state)"
    by (simp add: cold_cache_custom empty_custom_def is_empty_custom_def)
  have se: "fst (set_effect ''fire'' ''p1'' cold_state) = Inr ()"
    by (simp add: set_effect_def cold_get_custom cold_custom_file)
  have st: "fst (set_tag ''boss'' ''p1'' cold_state) = Inr ()"
    by (simp add: set_tag_def cold_get_custom cold_custom_file)
  have se': "set_effect ''fire'' ''p1'' cold_state = (Inr (), ?s1)"
    using se by (simp add: prod_eq_iff)
  have st': "set_tag ''boss'' ''p1'' cold_state = (Inr (), ?s2)"
    using st by (simp add: prod_eq_iff)
  have n1: "\<forall>op \<in> set ?ops1. \<not> touches_effect ''p1'' op" by simp
  have n2: "\<forall>op \<in> set ?ops2. \<not> touches_tag ''p1'' op" by simp
  note c1 = custom_cache_contract
      [where s = cold_state and op = "SetEffect ''fire'' ''p1''" and effect = "''fire''"
         and account_id = "''p1''" and s' = ?s1 and tg = "''boss''" and ops = ?ops1]
  note c2 = custom_cache_contract
      [where s = cold_state and op = "SetEffect ''fire'' ''p1''" and effect = "''fire''"
         and account_id = "''p1''" and s' = ?s2 and tg = "''boss''" and ops = ?ops2]
  have a: "get_custom cold_state = (custom_file cold_state, cold_state)"
    using c1 e by (simp add: load_custom_def)
  from c1 have i1: "set_effect ''fire'' ''p1'' cold_state = (Inr (), ?s1) \<longrightarrow>
      \<not> is_empty_custom (cache_custom ?s1) \<and>
      ((\<forall>op \<in> set ?ops1. \<not> touches_effect ''p1'' op) \<longrightarrow>
         effect_of ''p1'' (fst (get_custom (run_custom_ops ?ops1 ?s1))) = Some ''fire'')"
    by blast
  from c2 have i2: "set_tag ''boss'' ''p1'' cold_state = (Inr (), ?s2) \<longrightarrow>
      ((\<forall>op \<in> set ?ops2. \<not> touches_tag ''p1'' op) \<longrightarrow>
         tag_of ''p1'' (fst (get_custom (run_custom_ops ?ops2 ?s2))) = Some ''boss'')"
    by blast
  from i1 se' n1 have b: "\<not> is_empty_custom (cache_custom ?s1)"
    and c: "effect_of ''p1'' (fst (get_custom (run_custom_ops ?ops1 ?s1))) = Some ''fire''"
    by blast+
  from i2 st' n2 have d: "tag_of ''p1'' (fst (get_custom (run_custom_ops ?ops2 ?s2))) = Some ''boss''"
    by blast
  from e a se b c st d show ?thesis by simp
qed

subsection \<open>ProfileStore\<close>

lemma cold_profiles: "profiles_file cold_state = Some [''pb-1'' \<mapsto> old_profile]"
  by (simp add: cold_state_def blank_state_def)

text \<open>
  C2, as the code has it. On a loaded profile document \<open>update_display_string\<close>
  replaces the \<open>display_string\<close> entry of a known account by the new string, leaving
  the rest of the entry and every other entry as they were, and commits the document; for
  an unknown account it returns without changing the process state.
\<close>

theorem update_display_string_overwrites:
  assumes "profiles_file s = Some ps"
  shows "case ps account_id of
           Some p \<Rightarrow>
             update_display_string account_id d s =
               (Inr (), s\<lparr>profiles_file := Some (ps(account_id \<mapsto> p\<lparr>display_string := DStr d\<rparr>))\<rparr>)
         | None \<Rightarrow> update_display_string account_id d s = (Inr (), s)"
  using assms
  by (simp add: update_display_string_def get_profiles_def load_profiles_def
        commit_profiles_def dump_profiles_def split: option.splits)

theorem update_display_string_overwrites_witness:
  "profiles_file cold_state = Some [''pb-1'' \<mapsto> old_profile] \<and>
   update_display_string ''pb-1'' ''new'' cold_state =
     (Inr (), cold_state\<lparr>profiles_file :=
        Some [''pb-1'' \<mapsto> old_profile\<lparr>display_string := DStr ''new''\<rparr>]\<rparr>) \<and>
   update_display_string ''pb-9'' ''new'' cold_state = (Inr (), cold_state)"
  using update_display_string_overwrites [OF cold_profiles, of "''pb-1''" "''new''"]
    update_display_string_overwrites [OF cold_profiles, of "''pb-9''" "''new''"]
  by (simp add: cold_profiles)

text \<open>
  C2 as stated fails: for an account whose stored history is the list \<open>["old"]\<close>,
  \<open>update_display_string\<close> stores the plain string \<open>"new"\<close>, not \<open>["old", "new"]\<close>;
  the earlier entry is gone.
\<close>

theorem update_display_string_not_append:
  "stored_display_string ''pb-1'' cold_state = Some (DList [''old'']) \<and>
   fst (update_display_string ''pb-1'' ''new'' cold_state) = Inr () \<and>
   stored_display_string ''pb-1'' (snd (update_display_string ''pb-1'' ''new'' cold_state))
     = Some (DStr ''new'') \<and>
   stored_display_string ''pb-1'' (snd (update_display_string ''pb-1'' ''new'' cold_state))
     \<noteq> Some (DList [''old'', ''new''])"
  by (simp add: stored_display_string_def update_display_string_def get_profiles_def
      load_profiles_def commit_profiles_def dump_profiles_def cold_profiles old_profile_def)

text \<open>
  C6. \<open>add_profile\<close> returns normally whenever the profile document loads, and whenever
  it has returned normally, \<open>get_info\<close> for the same account on the resulting state
  yields an entry with \<open>isBan\<close> and \<open>isMuted\<close> false, \<open>canStartKickVote\<close> true and
  \<open>spamCount\<close> zero.
\<close>

theorem add_profile_then_get_info:
  "(profiles_file s \<noteq> None \<longrightarrow> fst (add_profile account_id d n age s) = Inr ()) \<and>
   (fst (add_profile account_id d n age s) = Inr () \<longrightarrow>
      (\<exists>p. fst (get_info account_id (snd (add_profile account_id d n age s))) = Inr (Some p) \<and>
           \<not> isBan p \<and> \<not> isMuted p \<and> canStartKickVote p \<and> spamCount p = 0))"
  by (auto simp: add_profile_def get_info_def load_profiles_def commit_profiles_def
        dump_profiles_def time_time_def Let_def split: option.splits)

theorem add_profile_then_get_info_witness:
  "profiles_file cold_state \<noteq> None \<and>
   fst (add_profile ''pb-7'' ''dev'' ''Dev'' 30 cold_state) = Inr () \<and>
   (\<exists>p. fst (get_info ''pb-7'' (snd (add_profile ''pb-7'' ''dev'' ''Dev'' 30 cold_state)))
          = Inr (Some p) \<and>
        \<not> isBan p \<and> \<not> isMuted p \<and> canStartKickVote p \<and> spamCount p = 0)"
  using add_profile_then_get_info [of cold_state "''pb-7''" "''dev''" "''Dev''" 30]
  by (simp add: cold_profiles)

lemma merge_display_string_absent:
  "ps account_id = None \<Longrightarrow> merge_display_string account_id d ps = Inr ps"
  by (simp add: merge_display_string_def)

lemma merge_allprofiles_absent:
  "ps account_id = None \<Longrightarrow>
   merge_allprofiles account_id al ps = (if al = [] then Inr ps else Inl KeyError)"
  by (cases al) simp_all

text \<open>
  C10. On a loaded profile document that lacks the account, \<open>update_profile\<close> with only
  a display string returns normally and leaves the process state (so every stored
  profile) as it was; with a non-empty \<open>allprofiles\<close> list, or with a name, it raises
  \<open>KeyError\<close> before anything is committed, whatever the other arguments are. An empty
  \<open>allprofiles\<close> list alone raises nothing, its loop body never runs.
\<close>

theorem update_profile_absent_account:
  assumes "profiles_file s = Some ps" and "ps account_id = None"
  shows "update_profile account_id (Some d) None None s = (Inr (), s) \<and>
         (al \<noteq> [] \<longrightarrow> update_profile account_id dopt (Some al) nopt s = (Inl KeyError, s)) \<and>
         update_profile account_id dopt alopt (Some n) s = (Inl KeyError, s) \<and>
         update_profile account_id dopt (Some []) None s = (Inr (), s)"
  using assms
  by (auto simp: update_profile_def load_profiles_def merge_display_string_absent
        merge_allprofiles_absent set_name_def commit_profiles_def dump_profiles_def
        split: option.splits)

theorem update_profile_absent_account_witness:
  "profiles_file cold_state = Some [''pb-1'' \<mapsto> old_profile] \<and>
   [''pb-1'' \<mapsto> old_profile] ''pb-9'' = None \<and>
   update_profile ''pb-9'' (Some ''new'') None None cold_state = (Inr (), cold_state) \<and>
   update_profile ''pb-9'' None (Some [''alt'']) None cold_state = (Inl KeyError, cold_state) \<and>
   update_profile ''pb-9'' (Some ''new'') (Some [''alt'']) None cold_state = (Inl KeyError, cold_state) \<and>
   update_profile ''pb-9'' None None (Some ''Nick'') cold_state = (Inl KeyError, cold_state)"
proof -
  have a: "[''pb-1'' \<mapsto> old_profile] ''pb-9'' = None" by simp
  note t = update_profile_absent_account [OF cold_profiles a]
  from t [of "''new''" "[''alt'']" None None None "''Nick''"]
    t [of "''new''" "[''alt'']" "Some ''new''" None None "''Nick''"]
  show ?thesis using cold_profiles a by simp
qed

subsection \<open>WhitelistLoader\<close>

lemma load_white_list_eq:
  "load_white_list s = s\<lparr>cache_whitelist := cache_whitelist s @ whitelist_file s\<rparr>"
proof -
  have "fold (\<lambda>account_id s'. s'\<lparr>cache_whitelist := cache_whitelist s' @ [account_id]\<rparr>) xs s
        = s\<lparr>cache_whitelist := cache_whitelist s @ xs\<rparr>" for xs
    by (induction xs arbitrary: s) simp_all
  then show ?thesis by (simp add: load_white_list_def load_whitelist_doc_def)
qed

lemma load_white_list_funpow:
  "(load_white_list ^^ n) s =
     s\<lparr>cache_whitelist := cache_whitelist s @ concat (replicate n (whitelist_file s))\<rparr>"
proof (induction n)
  case 0
  show ?case by simp
next
  case (Suc n)
  have "concat (replicate n xs) @ xs = xs @ concat (replicate n xs)" for xs :: "string list"
    by (induction n) simp_all
  with Suc show ?case by (simp add: load_white_list_eq)
qed

text \<open>
  C9. One call of \<open>load_white_list\<close> appends the whole whitelist document to the cached
  whitelist, whatever the cache already holds; \<open>n\<close> calls append it \<open>n\<close> times, so
  from the empty cache of a new process the cache has \<open>n * k\<close> entries for a document
  of \<open>k\<close> entries. No document is written.
\<close>

theorem load_white_list_duplicates:
  "cache_whitelist (load_white_list s) = cache_whitelist s @ whitelist_file s \<and>
   cache_whitelist ((load_white_list ^^ n) s)
     = cache_whitelist s @ concat (replicate n (whitelist_file s)) \<and>
   (cache_whitelist s = [] \<longrightarrow>
      length (cache_whitelist ((load_white_list ^^ n) s)) = n * length (whitelist_file s)) \<and>
   whitelist_file ((load_white_list ^^ n) s) = whitelist_file s \<and>
   profiles_file ((load_white_list ^^ n) s) = profiles_file s \<and>
   roles_file ((load_white_list ^^ n) s) = roles_file s \<and>
   custom_file ((load_white_list ^^ n) s) = custom_file s"
  by (simp add: load_white_list_funpow load_white_list_eq length_concat sum_list_replicate)

theorem load_white_list_duplicates_witness:
  "cache_whitelist cold_state = [] \<and>
   length (cache_whitelist ((load_white_list ^^ 3) cold_state)) = 6 \<and>
   cache_whitelist ((load_white_list ^^ 2) cold_state) = [''pb-1'', ''pb-2'', ''pb-1'', ''pb-2'']"
  using load_white_list_duplicates [of cold_state 3] load_white_list_duplicates [of cold_state 2]
  by (simp add: cold_state_def blank_state_def eval_nat_numeral)

end
